theory Spec2Isabelle
  imports Complex_Main "HOL-Library.Word"
begin

section \<open>VehicleTracking.ino: data model\<close>

text \<open>
  The sketch runs on an ATmega328: \<open>unsigned long\<close> is 32 bits wide and wraps, so the
  millisecond counter \<open>millis()\<close> and the global \<open>scheduler\<close> are \<open>32 word\<close>.
  A \<open>float\<close> is modelled by the rational number it denotes; the coordinates used in
  the concrete scenarios below (1.5, 103.75, 0) are dyadic and therefore exact.
\<close>

type_synonym u32 = "32 word"

text \<open>\<open>#define LOG_INTERVAL 60000\<close>; added to an \<open>unsigned long\<close>.\<close>

definition LOG_INTERVAL :: u32 where
  "LOG_INTERVAL = 60000"

text \<open>\<open>const char stream1[] = "0"\<close>, \<open>const char stream2[] = "1"\<close>, \<open>newClock\<close>.\<close>

definition stream1 :: string where
  "stream1 = ''0''"

definition stream2 :: string where
  "stream2 = ''1''"

definition newClock :: string where
  "newClock = ''12/10/16,17:30:00+32''"

text \<open>
  Every call the sketch makes on a peripheral (SD library, WISMO228 driver, GPS software
  serial, TinyGPS parser) is recorded, in order, in a trace. The debug narration on
  \<open>Serial\<close> has no effect on the control flow and is left out.
\<close>

datatype call =
    SD_begin
  | SD_open
  | File_print string
  | File_close
  | Wismo_init
  | Wismo_powerUp
  | Wismo_setClock string
  | Wismo_getClock
  | Wismo_openGPRS
  | Wismo_putHttp string
  | Wismo_closeGPRS
  | Wismo_shutdown
  | SS_begin
  | SS_end
  | GPS_encode char

text \<open>
  The globals of the sketch (\<open>clock\<close>, \<open>data\<close>, \<open>scheduler\<close>, \<open>newGpsData\<close>), and the
  part of the world the claims speak about: whether the radio is powered, the contents
  of \<open>log.txt\<close>, and the trace of peripheral calls.
\<close>

record state =
  clock :: string
  data :: string
  scheduler :: u32
  newGpsData :: bool
  radio_on :: bool
  log_txt :: string
  calls :: "call list"

text \<open>Static storage is zero-initialised; \<open>newGpsData\<close> is initialised to \<open>false\<close>.\<close>

definition init_state :: state where
  "init_state = \<lparr>clock = [], data = [], scheduler = 0, newGpsData = False,
                  radio_on = False, log_txt = [], calls = []\<rparr>"

text \<open>
  Two ways a run of the model stops without a final state: the supplied trace of GPS
  polls ends before the acquisition loop has left, or a string write needs more bytes
  than its destination array has (undefined behaviour in C; the number is the bytes
  the write needs, terminator included).
\<close>

datatype error =
    TraceEnded
  | Overflow_coordinate nat
  | Overflow_data nat

definition emit :: "call \<Rightarrow> state \<Rightarrow> state" where
  "emit c s = s\<lparr>calls := calls s @ [c]\<rparr>"

section \<open>Peripherals\<close>

text \<open>
  The WISMO228 driver is a collaborator: what each call returns is an input of the
  model. \<open>powerUp\<close> leaves the radio on exactly when it reports success, \<open>shutdown\<close>
  leaves it off. \<open>getClock_buf\<close> is what \<open>getClock\<close> leaves in the \<open>clock\<close> array.
\<close>

record gsm_env =
  powerUp_ok :: bool
  getClock_ok :: bool
  getClock_buf :: string
  openGPRS_ok :: bool
  putHttp_ok :: bool
  closeGPRS_ok :: bool

definition wismo_powerUp :: "bool \<Rightarrow> state \<Rightarrow> state" where
  "wismo_powerUp ok s = (emit Wismo_powerUp s)\<lparr>radio_on := ok\<rparr>"

definition wismo_shutdown :: "state \<Rightarrow> state" where
  "wismo_shutdown s = (emit Wismo_shutdown s)\<lparr>radio_on := False\<rparr>"

definition wismo_getClock :: "string \<Rightarrow> state \<Rightarrow> state" where
  "wismo_getClock buf s = (emit Wismo_getClock s)\<lparr>clock := buf\<rparr>"

text \<open>
  One evaluation of the loop test \<open>millis() - start < 2000\<close> of \<open>processGps\<close> together
  with the body that follows it: \<open>clk\<close> is the value \<open>millis()\<close> returned, \<open>burst\<close> the
  bytes \<open>ss.read()\<close> delivered while \<open>ss.available()\<close> stayed non-zero, each paired
  with what \<open>gps.encode\<close> returned for it.
\<close>

record poll =
  clk :: u32
  burst :: "(char \<times> bool) list"

section \<open>Number formatting of the run-time libraries\<close>

definition digit_char :: "nat \<Rightarrow> char" where
  "digit_char d = ''0123456789'' ! d"

fun dec_digits :: "nat \<Rightarrow> string" where
  "dec_digits n =
     (if n < 10 then [digit_char n] else dec_digits (n div 10) @ [digit_char (n mod 10)])"

declare dec_digits.simps [simp del]

text \<open>
  \<open>Print::printFloat(number, digits)\<close> of the Arduino core, which \<open>File::print(double, int)\<close>
  runs: sign, then \<open>number + 0.5 / 10^digits\<close> split into its integer part and
  \<open>digits\<close> fraction digits, each obtained by multiplying the remainder by ten and
  truncating. The device carries these steps out in 32-bit binary floating point, the
  model on exact rationals. The texts differ where a rounding error of the float
  arithmetic moves a digit across a boundary: for 1.125 and two digits the device
  prints \<open>1.12\<close>, the model gives \<open>1.13\<close>. For 0, 1.5 and 103.75, the only values whose
  text is evaluated below, the two agree.
\<close>

fun rounding :: "nat \<Rightarrow> rat" where
  "rounding 0 = 1 / 2"
| "rounding (Suc i) = rounding i / 10"

fun frac_digits :: "nat \<Rightarrow> rat \<Rightarrow> string" where
  "frac_digits 0 r = []"
| "frac_digits (Suc k) r =
     (let r10 = r * 10; toPrint = nat \<lfloor>r10\<rfloor>
      in digit_char toPrint # frac_digits k (r10 - of_nat toPrint))"

definition printFloat :: "rat \<Rightarrow> nat \<Rightarrow> string" where
  "printFloat number digits =
     (let sign = (if number < 0 then ''-'' else []);
          number1 = (if number < 0 then - number else number) + rounding digits;
          int_part = nat \<lfloor>number1\<rfloor>;
          remainder = number1 - of_nat int_part
      in sign @ dec_digits int_part @ (if 0 < digits then ''.'' else [])
           @ frac_digits digits remainder)"

text \<open>\<open>Print::println\<close> ends the line with carriage return and line feed.\<close>

definition println_eol :: string where
  "println_eol = [CHR 0x0D, CHR 0x0A]"

text \<open>
  \<open>dtostrf(val, width, prec, s)\<close> of avr-libc: the text \<open>[-]d.ddd\<close> with \<open>prec\<close> digits
  after the decimal point (the magnitude rounded to that many places, half up, on
  exact rationals; the library rounds the binary value, which can differ in the last
  digit on ties but not in the number of characters of the values evaluated below),
  right-aligned in at least \<open>width\<close> characters. This function gives the text; the
  call stores it and a terminating zero byte into \<open>s\<close>.
\<close>

definition dtostrf :: "rat \<Rightarrow> nat \<Rightarrow> nat \<Rightarrow> string" where
  "dtostrf val width prec =
     (let r = \<bar>val\<bar> + rounding prec;
          body = (if val < 0 then ''-'' else []) @ dec_digits (nat \<lfloor>r\<rfloor>)
                 @ (if 0 < prec then ''.'' @ frac_digits prec (r - of_int \<lfloor>r\<rfloor>) else [])
      in replicate (width - length body) CHR '' '' @ body)"

section \<open>String writes into the fixed arrays\<close>

definition and_then :: "error + 'a \<Rightarrow> ('a \<Rightarrow> error + 'b) \<Rightarrow> error + 'b" where
  "and_then r f = (case r of Inl e \<Rightarrow> Inl e | Inr x \<Rightarrow> f x)"

text \<open>
  \<open>char data[32]\<close> and \<open>char coordinate[8]\<close>: a C string of length \<open>n\<close> occupies
  \<open>n + 1\<close> bytes. \<open>strcpy\<close>, \<open>strcat\<close> and \<open>dtostrf\<close> do not check the destination.
\<close>

definition strcpy_data :: "string \<Rightarrow> error + string" where
  "strcpy_data src =
     (if length src + 1 \<le> 32 then Inr src else Inl (Overflow_data (length src + 1)))"

definition strcat_data :: "string \<Rightarrow> string \<Rightarrow> error + string" where
  "strcat_data d src =
     (if length d + length src + 1 \<le> 32 then Inr (d @ src)
      else Inl (Overflow_data (length d + length src + 1)))"

definition dtostrf_coordinate :: "rat \<Rightarrow> error + string" where
  "dtostrf_coordinate val =
     (let t = dtostrf val 2 4
      in if length t + 1 \<le> 8 then Inr t else Inl (Overflow_coordinate (length t + 1)))"

text \<open>Lines 249 to 260 of \<open>processGsm\<close>; \<open>strcat(data, "\0")\<close> appends the empty string.\<close>

definition format_data :: "rat \<Rightarrow> rat \<Rightarrow> error + string" where
  "format_data flat flon =
     and_then (strcpy_data stream1) (\<lambda>d1.
     and_then (strcat_data d1 '','') (\<lambda>d2.
     and_then (dtostrf_coordinate flat) (\<lambda>c1.
     and_then (strcat_data d2 c1) (\<lambda>d3.
     and_then (strcat_data d3 [CHR 0x0D, CHR 0x0A]) (\<lambda>d4.
     and_then (strcat_data d4 stream2) (\<lambda>d5.
     and_then (strcat_data d5 '','') (\<lambda>d6.
     and_then (dtostrf_coordinate flon) (\<lambda>c2.
     and_then (strcat_data d6 c2) (\<lambda>d7.
     and_then (strcat_data d7 [CHR 0x0D, CHR 0x0A]) (\<lambda>d8.
     strcat_data d8 []))))))))))"

section \<open>processGps\<close>

text \<open>The inner loop \<open>while (ss.available())\<close>: every byte read is fed to the parser.\<close>

fun gps_while :: "(char \<times> bool) list \<Rightarrow> state \<Rightarrow> state" where
  "gps_while [] s = s"
| "gps_while ((c, valid) # bs) s =
     gps_while bs (let s1 = emit (GPS_encode c) s
                   in if valid then s1\<lparr>newGpsData := True\<rparr> else s1)"

text \<open>
  The loop \<open>for (unsigned long start = millis(); millis() - start < 2000;)\<close>. The result
  carries the reading of \<open>millis()\<close> at which the test failed. Its only exit is the
  failed test: the body has no \<open>break\<close> and no \<open>return\<close>.
\<close>

fun gps_for :: "u32 \<Rightarrow> poll list \<Rightarrow> state \<Rightarrow> error + (u32 \<times> state)" where
  "gps_for start [] s = Inl TraceEnded"
| "gps_for start (p # ps) s =
     (if clk p - start < 2000 then gps_for start ps (gps_while (burst p) s)
      else Inr (clk p, s))"

definition processGps :: "u32 \<Rightarrow> poll list \<Rightarrow> state \<Rightarrow> error + state" where
  "processGps start polls s =
     and_then (gps_for start polls (emit SS_begin s)) (\<lambda>(t, s1). Inr (emit SS_end s1))"

section \<open>processGsm\<close>

text \<open>
  The body of \<open>if (wismo.powerUp())\<close>. What \<open>getClock\<close>, \<open>putHttp\<close> and \<open>closeGPRS\<close>
  return selects debug narration only; \<open>pos\<close> is what \<open>gps.f_get_position\<close> yields.
\<close>

definition gsm_session :: "gsm_env \<Rightarrow> rat \<times> rat \<Rightarrow> state \<Rightarrow> error + state" where
  "gsm_session env pos s =
     (let s1 = wismo_getClock (getClock_buf env) s
      in and_then (format_data (fst pos) (snd pos)) (\<lambda>d.
           let s2 = emit Wismo_openGPRS (s1\<lparr>data := d\<rparr>)
           in if openGPRS_ok env
              then Inr (emit Wismo_closeGPRS (emit (Wismo_putHttp d) s2))
              else Inr s2))"

definition processGsm :: "gsm_env \<Rightarrow> rat \<times> rat \<Rightarrow> state \<Rightarrow> error + state" where
  "processGsm env pos s =
     (let s1 = wismo_powerUp (powerUp_ok env) s
      in and_then (if powerUp_ok env then gsm_session env pos s1 else Inr s1)
           (\<lambda>s2. Inr (wismo_shutdown s2)))"

section \<open>processLog\<close>

definition file_print :: "string \<Rightarrow> state \<Rightarrow> state" where
  "file_print t s = (emit (File_print t) s)\<lparr>log_txt := log_txt s @ t\<rparr>"

text \<open>
  \<open>invalid\<close> stands for the constant \<open>TinyGPS::GPS_INVALID_F_ANGLE\<close> of the parser
  library; \<open>open_ok\<close> says whether \<open>SD.open("log.txt", FILE_WRITE)\<close> gave a file.
\<close>

definition processLog :: "rat \<Rightarrow> bool \<Rightarrow> rat \<times> rat \<Rightarrow> state \<Rightarrow> state" where
  "processLog invalid open_ok pos s =
     (let s0 = emit SD_open s
      in if open_ok then
           (let flat = fst pos; flon = snd pos;
                s1 = file_print (clock s0) s0;
                s2 = file_print '','' s1;
                s3 = file_print (printFloat (if flat = invalid then 0 else flat) 2) s2;
                s4 = file_print '','' s3;
                s5 = file_print (printFloat (if flon = invalid then 0 else flon) 2
                                 @ println_eol) s4
            in emit File_close s5)
         else s0)"

section \<open>The entry points: setup and loop\<close>

record boot_env =
  sd_begin_ok :: bool
  boot_powerUp_ok :: bool
  setClock_ok :: bool
  boot_getClock_buf :: string
  boot_millis :: u32

text \<open>\<open>RTC_SET\<close> is defined, so the clock is set after a successful power-up.\<close>

definition setup_sketch :: "boot_env \<Rightarrow> state \<Rightarrow> state" where
  "setup_sketch env s =
     (let s0 = emit SD_begin s
      in if \<not> sd_begin_ok env then s0
         else
           (let s1 = wismo_powerUp (boot_powerUp_ok env) (emit Wismo_init s0);
                s2 = (if boot_powerUp_ok env then
                        (let s3 = emit (Wismo_setClock newClock) s1
                         in if setClock_ok env
                            then wismo_getClock (boot_getClock_buf env) s3 else s3)
                      else s1);
                s4 = wismo_shutdown s2
            in s4\<lparr>scheduler := boot_millis env + LOG_INTERVAL\<rparr>))"

text \<open>
  What one pass through \<open>loop\<close> receives from outside: the reading of \<open>millis()\<close> in the
  test, the second reading in the assignment to \<open>scheduler\<close>, the reading that
  initialises \<open>start\<close> in \<open>processGps\<close> and the polls that follow it, the position the
  parser holds afterwards, the answers of the radio driver and of \<open>SD.open\<close>.
\<close>

record cycle_env =
  now_test :: u32
  now_arm :: u32
  gps_start :: u32
  gps_polls :: "poll list"
  position :: "rat \<times> rat"
  gsm :: gsm_env
  sd_open_ok :: bool

definition loop :: "rat \<Rightarrow> cycle_env \<Rightarrow> state \<Rightarrow> error + state" where
  "loop invalid env s =
     (if scheduler s < now_test env then
        and_then (processGps (gps_start env) (gps_polls env)
                    (s\<lparr>scheduler := now_arm env + LOG_INTERVAL\<rparr>)) (\<lambda>s1.
          if newGpsData s1 then
            and_then (processGsm (gsm env) (position env) s1) (\<lambda>s2.
              Inr ((processLog invalid (sd_open_ok env) (position env) s2)
                     \<lparr>newGpsData := False\<rparr>))
          else Inr s1)
      else Inr s)"

text \<open>The calls a run added to the trace, and the two kinds the claims single out.\<close>

definition new_calls :: "state \<Rightarrow> state \<Rightarrow> call list" where
  "new_calls s s' = drop (length (calls s)) (calls s')"

fun is_radio_call :: "call \<Rightarrow> bool" where
  "is_radio_call Wismo_init = True"
| "is_radio_call Wismo_powerUp = True"
| "is_radio_call (Wismo_setClock t) = True"
| "is_radio_call Wismo_getClock = True"
| "is_radio_call Wismo_openGPRS = True"
| "is_radio_call (Wismo_putHttp d) = True"
| "is_radio_call Wismo_closeGPRS = True"
| "is_radio_call Wismo_shutdown = True"
| "is_radio_call c = False"

fun is_log_call :: "call \<Rightarrow> bool" where
  "is_log_call SD_open = True"
| "is_log_call (File_print t) = True"
| "is_log_call File_close = True"
| "is_log_call c = False"

section \<open>Auxiliary notions and sample inputs\<close>

text \<open>
  The loop test of \<open>processGps\<close> as a predicate on a poll, and the bytes the parser
  has been fed when the loop leaves: those of every poll before the first one whose
  reading fails the test.
\<close>

definition in_budget :: "u32 \<Rightarrow> poll \<Rightarrow> bool" where
  "in_budget start p = (clk p - start < 2000)"

definition fed_bytes :: "u32 \<Rightarrow> poll list \<Rightarrow> (char \<times> bool) list" where
  "fed_bytes start polls = concat (map burst (takeWhile (in_budget start) polls))"

text \<open>Both coordinate texts, with their terminating zero byte, fit \<open>char coordinate[8]\<close>.\<close>

definition coordinates_fit :: "rat \<times> rat \<Rightarrow> bool" where
  "coordinates_fit pos =
     (length (dtostrf (fst pos) 2 4) + 1 \<le> 8 \<and> length (dtostrf (snd pos) 2 4) + 1 \<le> 8)"

text \<open>
  Sample inputs. \<open>quiet_cycle now\<close> is a pass through \<open>loop\<close> in which every reading of
  the clock before \<open>processGps\<close> is \<open>now\<close>, no GPS byte arrives and the first loop test
  of \<open>processGps\<close> already reads 2000 ms later. \<open>armed_at t\<close> is the state \<open>setup\<close> leaves
  when every step succeeds and \<open>millis()\<close> reads \<open>t\<close> in its last line.
\<close>

definition quiet_gsm :: gsm_env where
  "quiet_gsm = \<lparr>powerUp_ok = True, getClock_ok = True, getClock_buf = newClock,
                 openGPRS_ok = True, putHttp_ok = True, closeGPRS_ok = True\<rparr>"

definition quiet_cycle :: "u32 \<Rightarrow> cycle_env" where
  "quiet_cycle now =
     \<lparr>now_test = now, now_arm = now, gps_start = now,
      gps_polls = [\<lparr>clk = now + 2000, burst = []\<rparr>],
      position = (1.5, 3.75), gsm = quiet_gsm, sd_open_ok = True\<rparr>"

definition armed_at :: "u32 \<Rightarrow> state" where
  "armed_at t =
     setup_sketch \<lparr>sd_begin_ok = True, boot_powerUp_ok = True, setClock_ok = True,
                   boot_getClock_buf = newClock, boot_millis = t\<rparr> init_state"

text \<open>
  The carriage return read at 0 ms completes a valid sentence; the first byte of the
  next sentence arrives at 1000 ms; the reading 2000 ms ends the loop.
\<close>

definition late_fix_polls :: "poll list" where
  "late_fix_polls =
     [\<lparr>clk = 0, burst = [(CHR 0x0D, True)]\<rparr>,
      \<lparr>clk = 1000, burst = [(CHR ''$'', False)]\<rparr>,
      \<lparr>clk = 2000, burst = []\<rparr>]"

text \<open>The reading after 1999 ms is 2001 ms: a byte was being handled in between.\<close>

definition overshoot_polls :: "poll list" where
  "overshoot_polls =
     [\<lparr>clk = 1999, burst = [(CHR ''$'', False)]\<rparr>, \<lparr>clk = 2001, burst = []\<rparr>]"









section \<open>Properties of the routines\<close>

lemma emit_simps [simp]:
  "calls (emit c s) = calls s @ [c]" "clock (emit c s) = clock s" "data (emit c s) = data s"
  "scheduler (emit c s) = scheduler s" "newGpsData (emit c s) = newGpsData s"
  "radio_on (emit c s) = radio_on s" "log_txt (emit c s) = log_txt s"
  by (simp_all add: emit_def)

lemma gps_while_closed:
  "gps_while bs s = s\<lparr>newGpsData := newGpsData s \<or> (\<exists>b\<in>set bs. snd b),
                        calls := calls s @ map (\<lambda>b. GPS_encode (fst b)) bs\<rparr>"
proof (induction bs arbitrary: s)
  case Nil
  show ?case by simp
next
  case (Cons b bs)
  obtain c v where b: "b = (c, v)" by (cases b)
  show ?case unfolding b by (simp add: Cons.IH Let_def emit_def)
qed

lemma gps_while_append: "gps_while (as @ bs) s = gps_while bs (gps_while as s)"
  by (induction as arbitrary: s) auto

lemma gps_for_closed:
  "gps_for start polls s =
     (case dropWhile (in_budget start) polls of
        [] \<Rightarrow> Inl TraceEnded
      | p # ps \<Rightarrow> Inr (clk p, gps_while (fed_bytes start polls) s))"
proof (induction polls arbitrary: s)
  case Nil
  show ?case by (simp add: fed_bytes_def)
next
  case (Cons p ps)
  show ?case
  proof (cases "in_budget start p")
    case True
    have "gps_for start (p # ps) s = gps_for start ps (gps_while (burst p) s)"
      using True by (simp add: in_budget_def)
    moreover have "dropWhile (in_budget start) (p # ps) = dropWhile (in_budget start) ps"
      using True by simp
    moreover have "gps_while (fed_bytes start (p # ps)) s
                     = gps_while (fed_bytes start ps) (gps_while (burst p) s)"
      using True by (simp add: fed_bytes_def gps_while_append)
    ultimately show ?thesis
      by (simp only: Cons.IH)
  next
    case False
    then show ?thesis by (simp add: in_budget_def fed_bytes_def)
  qed
qed

lemma processGps_closed:
  "processGps start polls s =
     (case dropWhile (in_budget start) polls of
        [] \<Rightarrow> Inl TraceEnded
      | p # ps \<Rightarrow> Inr (emit SS_end (gps_while (fed_bytes start polls) (emit SS_begin s))))"
proof (cases "dropWhile (in_budget start) polls")
  case Nil
  show ?thesis
    by (simp only: processGps_def gps_for_closed and_then_def Nil list.case sum.case)
next
  case (Cons p ps)
  show ?thesis
    by (simp only: processGps_def gps_for_closed and_then_def Cons list.case sum.case
          prod.case)
qed

lemma dropWhile_budget_Nil:
  "(dropWhile (in_budget start) polls = []) = (\<not> (\<exists>p\<in>set polls. 2000 \<le> clk p - start))"
  by (auto simp: in_budget_def not_less)

lemma processGps_Inr:
  assumes "processGps start polls s = Inr s'"
  shows "s' = s\<lparr>newGpsData := newGpsData s \<or> (\<exists>b\<in>set (fed_bytes start polls). snd b),
               calls := calls s @ SS_begin # map (\<lambda>b. GPS_encode (fst b)) (fed_bytes start polls) @ [SS_end]\<rparr>"
  using assms
  by (auto simp: processGps_closed gps_while_closed emit_def split: list.splits)

lemma processGps_returns:
  assumes "\<exists>p\<in>set polls. 2000 \<le> clk p - start"
  shows "\<exists>s'. processGps start polls s = Inr s'"
proof -
  from assms have "dropWhile (in_budget start) polls \<noteq> []"
    using dropWhile_budget_Nil [of start polls] by blast
  then show ?thesis
    by (cases "dropWhile (in_budget start) polls") (simp_all add: processGps_closed)
qed

lemma format_data_fits:
  assumes "coordinates_fit (flat, flon)"
  shows "format_data flat flon =
           Inr (stream1 @ '','' @ dtostrf flat 2 4 @ [CHR 0x0D, CHR 0x0A]
                @ stream2 @ '','' @ dtostrf flon 2 4 @ [CHR 0x0D, CHR 0x0A])"
  using assms
  by (simp add: coordinates_fit_def format_data_def and_then_def strcpy_data_def
        strcat_data_def dtostrf_coordinate_def stream1_def stream2_def Let_def)

lemma wismo_shutdown_simps [simp]:
  "radio_on (wismo_shutdown s) = False"
  "calls (wismo_shutdown s) = calls s @ [Wismo_shutdown]"
  "scheduler (wismo_shutdown s) = scheduler s"
  "newGpsData (wismo_shutdown s) = newGpsData s"
  "log_txt (wismo_shutdown s) = log_txt s"
  "clock (wismo_shutdown s) = clock s"
  by (simp_all add: wismo_shutdown_def)

lemma processGsm_Inr:
  assumes "processGsm env pos s = Inr s'"
  shows "\<not> radio_on s' \<and> last (calls s') = Wismo_shutdown \<and> scheduler s' = scheduler s
         \<and> newGpsData s' = newGpsData s \<and> log_txt s' = log_txt s
         \<and> (\<exists>ys. calls s' = calls s @ Wismo_powerUp # ys)"
  using assms
  by (auto simp: processGsm_def gsm_session_def and_then_def Let_def wismo_powerUp_def
        wismo_getClock_def split: sum.splits if_splits)

lemma processGsm_returns:
  assumes "\<not> powerUp_ok env \<or> coordinates_fit pos"
  shows "\<exists>s'. processGsm env pos s = Inr s'"
proof (cases "powerUp_ok env")
  case False
  then show ?thesis by (simp add: processGsm_def and_then_def Let_def)
next
  case True
  with assms have "coordinates_fit (fst pos, snd pos)" by simp
  from format_data_fits [OF this] True show ?thesis
    by (simp add: processGsm_def gsm_session_def and_then_def Let_def)
qed

lemma file_print_simps [simp]:
  "log_txt (file_print t s) = log_txt s @ t"
  "calls (file_print t s) = calls s @ [File_print t]"
  "scheduler (file_print t s) = scheduler s"
  "newGpsData (file_print t s) = newGpsData s"
  "radio_on (file_print t s) = radio_on s"
  "clock (file_print t s) = clock s"
  by (simp_all add: file_print_def)

lemma processLog_fields:
  "scheduler (processLog invalid ok pos s) = scheduler s"
  "radio_on (processLog invalid ok pos s) = radio_on s"
  "newGpsData (processLog invalid ok pos s) = newGpsData s"
  "\<exists>ys. calls (processLog invalid ok pos s) = calls s @ SD_open # ys"
  by (simp_all add: processLog_def Let_def)

lemma printFloat_zero: "printFloat 0 2 = ''0.00''"
  by code_simp

lemma processLog_log_txt:
  "log_txt (processLog invalid True (flat, flon) s) =
     log_txt s @ clock s @ '','' @ (if flat = invalid then ''0.00'' else printFloat flat 2)
       @ '','' @ (if flon = invalid then ''0.00'' else printFloat flon 2) @ println_eol"
  by (simp add: processLog_def Let_def printFloat_zero)

lemma processLog_open_failed:
  "log_txt (processLog invalid False pos s) = log_txt s"
  by (simp add: processLog_def Let_def)

lemma loop_not_due: "\<not> scheduler s < now_test env \<Longrightarrow> loop invalid env s = Inr s"
  by (simp add: loop_def)

lemma loop_fired:
  assumes "scheduler s < now_test env" and "loop invalid env s = Inr s'"
  shows "scheduler s' = now_arm env + LOG_INTERVAL \<and> \<not> newGpsData s'
          \<and> (\<exists>ys. calls s' = calls s @ SS_begin # ys)"
proof -
  let ?s0 = "s\<lparr>scheduler := now_arm env + LOG_INTERVAL\<rparr>"
  from assms obtain s1 where
    gps: "processGps (gps_start env) (gps_polls env) ?s0 = Inr s1" and
    rest: "(if newGpsData s1 then
              and_then (processGsm (gsm env) (position env) s1) (\<lambda>s2.
                Inr ((processLog invalid (sd_open_ok env) (position env) s2)
                       \<lparr>newGpsData := False\<rparr>))
            else Inr s1) = Inr s'"
    by (auto simp: loop_def and_then_def split: sum.splits)
  from processGps_Inr [OF gps] have
    s1: "scheduler s1 = now_arm env + LOG_INTERVAL" "\<exists>ys. calls s1 = calls s @ SS_begin # ys"
    by simp_all
  show ?thesis
  proof (cases "newGpsData s1")
    case False
    with rest s1 show ?thesis by simp
  next
    case True
    with rest obtain s2 where
      gsm: "processGsm (gsm env) (position env) s1 = Inr s2" and
      s': "s' = (processLog invalid (sd_open_ok env) (position env) s2)\<lparr>newGpsData := False\<rparr>"
      by (auto simp: and_then_def split: sum.splits)
    from processGsm_Inr [OF gsm] s1 have
      "scheduler s2 = now_arm env + LOG_INTERVAL" "\<exists>ys. calls s2 = calls s @ SS_begin # ys"
      by auto
    moreover obtain zs where "calls (processLog invalid (sd_open_ok env) (position env) s2)
                               = calls s2 @ SD_open # zs"
      using processLog_fields(4) by blast
    ultimately show ?thesis
      by (auto simp: s' processLog_fields)
  qed
qed

lemma loop_returns:
  assumes "\<exists>p\<in>set (gps_polls env). 2000 \<le> clk p - gps_start env"
      and "coordinates_fit (position env)"
  shows "\<exists>s'. loop invalid env s = Inr s'"
proof (cases "scheduler s < now_test env")
  case False
  then show ?thesis by (simp add: loop_def)
next
  case True
  from processGps_returns [OF assms(1)] obtain s1 where
    gps: "processGps (gps_start env) (gps_polls env)
            (s\<lparr>scheduler := now_arm env + LOG_INTERVAL\<rparr>) = Inr s1"
    by blast
  from processGsm_returns [of "gsm env" "position env" s1] assms(2) obtain s2 where
    "processGsm (gsm env) (position env) s1 = Inr s2"
    by blast
  with True gps show ?thesis
    by (simp add: loop_def and_then_def)
qed

lemma coordinates_fit_sample: "coordinates_fit (1.5, 3.75)"
  unfolding coordinates_fit_def by code_simp

lemma printFloat_samples:
  "printFloat 1.5 2 = ''1.50''" "printFloat 103.75 2 = ''103.75''"
  by code_simp+

lemma armed_at_scheduler: "scheduler (armed_at t) = t + LOG_INTERVAL"
  by (simp add: armed_at_def setup_sketch_def Let_def)

lemma armed_at_newGpsData: "\<not> newGpsData (armed_at t)"
  by (simp add: armed_at_def setup_sketch_def Let_def wismo_powerUp_def wismo_getClock_def
        init_state_def)

lemma quiet_cycle_fires:
  assumes "scheduler s < now" and "\<not> newGpsData s"
  shows "loop invalid (quiet_cycle now) s
           = Inr (s\<lparr>scheduler := now + LOG_INTERVAL, calls := calls s @ [SS_begin, SS_end]\<rparr>)"
  using assms
  by (simp add: loop_def quiet_cycle_def processGps_def and_then_def emit_def)













section \<open>The claims\<close>

text \<open>
  C1 (as amended). A pass through \<open>loop\<close> leaves the state untouched exactly when the
  reading of \<open>millis()\<close> is not greater than \<open>scheduler\<close>: the cycle fires if and only if
  \<open>now > next_due\<close>, strictly. At \<open>now = next_due\<close> it does not fire.
\<close>

theorem loop_fires_iff_after_deadline:
  "(loop invalid env s = Inr s) = (\<not> scheduler s < now_test env)"
proof (cases "scheduler s < now_test env")
  case False
  then show ?thesis by (simp add: loop_not_due)
next
  case True
  have "loop invalid env s \<noteq> Inr s"
  proof
    assume "loop invalid env s = Inr s"
    from loop_fired [OF True this] show False by simp
  qed
  with True show ?thesis by simp
qed

text \<open>C1 (as amended) on a pass at 1001 ms with the deadline 1000: it fires.\<close>

theorem loop_fires_iff_after_deadline_witness:
  "loop 1000 (quiet_cycle 1001) (init_state\<lparr>scheduler := 1000\<rparr>)
     \<noteq> Inr (init_state\<lparr>scheduler := 1000\<rparr>)"
  using loop_fires_iff_after_deadline
          [of 1000 "quiet_cycle 1001" "init_state\<lparr>scheduler := 1000\<rparr>"]
  by (simp add: quiet_cycle_def)

text \<open>
  C1 as stated fails: with \<open>scheduler = 1000\<close> and \<open>millis() = 1000\<close> the deadline is
  reached (\<open>now \<ge> next_due\<close>), yet the pass does nothing.
\<close>

theorem loop_idle_at_deadline:
  "loop 1000 (quiet_cycle 1000) (init_state\<lparr>scheduler := 1000\<rparr>)
     = Inr (init_state\<lparr>scheduler := 1000\<rparr>)
   \<and> scheduler (init_state\<lparr>scheduler := 1000\<rparr>) \<le> now_test (quiet_cycle 1000)"
  by (simp add: loop_def quiet_cycle_def)

text \<open>
  C2 (as amended). \<open>processGps\<close> does not stop at the first validated sentence. It
  returns exactly when a loop test reads at least 2000 ms since \<open>start\<close>; until then
  every byte that arrives is fed to the parser, whatever \<open>gps.encode\<close> reported before.
  On return \<open>newGpsData\<close> is true if it was true on entry or some fed byte completed a
  valid sentence.
\<close>

theorem processGps_runs_whole_budget:
  "processGps start polls s =
     (if \<exists>p\<in>set polls. 2000 \<le> clk p - start
      then Inr (s\<lparr>newGpsData := newGpsData s \<or> (\<exists>b\<in>set (fed_bytes start polls). snd b),
                  calls := calls s @ SS_begin
                             # map (\<lambda>b. GPS_encode (fst b)) (fed_bytes start polls)
                             @ [SS_end]\<rparr>)
      else Inl TraceEnded)"
proof (cases "\<exists>p\<in>set polls. 2000 \<le> clk p - start")
  case True
  from processGps_returns [OF True] obtain s' where r: "processGps start polls s = Inr s'"
    by blast
  from processGps_Inr [OF r] r True show ?thesis by simp
next
  case False
  then have d: "dropWhile (in_budget start) polls = []"
    using dropWhile_budget_Nil [of start polls] by blast
  have "processGps start polls s = Inl TraceEnded"
    by (simp only: processGps_closed d list.case)
  with False show ?thesis by simp
qed

text \<open>C2 (as amended) on a run whose first byte completes a valid sentence.\<close>

theorem processGps_runs_whole_budget_witness:
  "processGps 0 late_fix_polls init_state =
     Inr (init_state\<lparr>newGpsData := True,
            calls := [SS_begin, GPS_encode (CHR 0x0D), GPS_encode CHR ''$'', SS_end]\<rparr>)"
  using processGps_runs_whole_budget [of 0 late_fix_polls init_state]
  by (simp add: late_fix_polls_def fed_bytes_def in_budget_def init_state_def)

text \<open>
  C2 as stated fails: the sentence validates in the first poll, at 0 ms. After that
  poll the routine has not returned; it goes on to feed the byte of the second poll
  and leaves only at the reading 2000 ms.
\<close>

theorem processGps_continues_after_fix:
  "processGps 0 (take 1 late_fix_polls) init_state = Inl TraceEnded
   \<and> processGps 0 late_fix_polls init_state =
       Inr (init_state\<lparr>newGpsData := True,
              calls := [SS_begin, GPS_encode (CHR 0x0D), GPS_encode CHR ''$'', SS_end]\<rparr>)"
  by (simp add: processGps_def late_fix_polls_def and_then_def emit_def init_state_def)

text \<open>
  C3. In a cycle that fires, if \<open>processGps\<close> returns with \<open>newGpsData\<close> false, the pass
  ends there: among the calls it made there is none on the radio driver and none on
  the SD card or the log file, the radio power state and \<open>log.txt\<close> are unchanged.
\<close>

theorem loop_without_fix_skips_uplink_and_log:
  assumes "scheduler s < now_test env"
      and "processGps (gps_start env) (gps_polls env)
             (s\<lparr>scheduler := now_arm env + LOG_INTERVAL\<rparr>) = Inr s1"
      and "\<not> newGpsData s1"
  shows "loop invalid env s = Inr s1
         \<and> filter (\<lambda>c. is_radio_call c \<or> is_log_call c) (new_calls s s1) = []
         \<and> radio_on s1 = radio_on s \<and> log_txt s1 = log_txt s"
proof -
  from assms have "loop invalid env s = Inr s1"
    by (simp add: loop_def and_then_def)
  moreover from processGps_Inr [OF assms(2)] have
    "new_calls s s1 = SS_begin # map (\<lambda>b. GPS_encode (fst b))
                        (fed_bytes (gps_start env) (gps_polls env)) @ [SS_end]"
    "radio_on s1 = radio_on s" "log_txt s1 = log_txt s"
    by (simp_all add: new_calls_def)
  ultimately show ?thesis
    by (simp add: filter_empty_conv)
qed

text \<open>C3 on a pass that fires at 1 ms from the initial state and receives no GPS byte.\<close>

theorem loop_without_fix_skips_uplink_and_log_witness:
  "loop 1000 (quiet_cycle 1) init_state = Inr (init_state\<lparr>scheduler := 60001, calls := [SS_begin, SS_end]\<rparr>)
   \<and> filter (\<lambda>c. is_radio_call c \<or> is_log_call c)
        (new_calls init_state (init_state\<lparr>scheduler := 60001, calls := [SS_begin, SS_end]\<rparr>)) = []"
proof -
  have a: "scheduler init_state < now_test (quiet_cycle 1)"
    by (simp add: init_state_def quiet_cycle_def)
  have b: "processGps (gps_start (quiet_cycle 1)) (gps_polls (quiet_cycle 1))
             (init_state\<lparr>scheduler := now_arm (quiet_cycle 1) + LOG_INTERVAL\<rparr>)
           = Inr (init_state\<lparr>scheduler := 60001, calls := [SS_begin, SS_end]\<rparr>)"
    by (simp add: processGps_def quiet_cycle_def and_then_def emit_def init_state_def
          LOG_INTERVAL_def)
  have c: "\<not> newGpsData (init_state\<lparr>scheduler := 60001, calls := [SS_begin, SS_end]\<rparr>)"
    by (simp add: init_state_def)
  from loop_without_fix_skips_uplink_and_log [OF a b c, of 1000] show ?thesis
    by simp
qed


text \<open>
  C5 fails on the code: for the longitude 103.75 \<open>dtostrf(flon, 2, 4, coordinate)\<close>
  produces the eight characters \<open>103.7500\<close>, which with the terminating zero byte need
  nine bytes of \<open>char coordinate[8]\<close>.
\<close>

theorem format_data_overflows_coordinate:
  "dtostrf 103.75 2 4 = ''103.7500''
   \<and> dtostrf_coordinate 103.75 = Inl (Overflow_coordinate 9)
   \<and> format_data 1.5 103.75 = Inl (Overflow_coordinate 9)
   \<and> processGsm quiet_gsm (1.5, 103.75) init_state = Inl (Overflow_coordinate 9)"
  by code_simp

text \<open>
  C6 (as amended). With the clock string \<open>12/10/16,17:30:00+32\<close> and the fix
  (1.5, 103.75), a successful \<open>SD.open\<close> is followed by appending the fields, comma
  separated, with two decimals, ended by carriage return and line feed (\<open>println\<close>).
  A coordinate equal to the parser's invalid-angle constant is written as \<open>0.00\<close>, and
  the file is still closed after the write.
\<close>

theorem processLog_appends_line:
  assumes "clock s = ''12/10/16,17:30:00+32''" and "invalid \<noteq> 1.5" and "invalid \<noteq> 103.75"
  shows "log_txt (processLog invalid True (1.5, 103.75) s)
           = log_txt s @ ''12/10/16,17:30:00+32,1.50,103.75'' @ [CHR 0x0D, CHR 0x0A]
         \<and> log_txt (processLog invalid True (invalid, flon) s)
           = log_txt s @ clock s @ '',0.00,''
               @ (if flon = invalid then ''0.00'' else printFloat flon 2) @ [CHR 0x0D, CHR 0x0A]
         \<and> log_txt (processLog invalid True (flat, invalid) s)
           = log_txt s @ clock s @ '',''
               @ (if flat = invalid then ''0.00'' else printFloat flat 2) @ '',0.00''
               @ [CHR 0x0D, CHR 0x0A]
         \<and> last (calls (processLog invalid True (invalid, flon) s)) = File_close"
proof -
  have a: "\<not> 1.5 = invalid" "\<not> 103.75 = invalid"
    using assms(2,3) by auto
  have "log_txt (processLog invalid True (1.5, 103.75) s)
          = log_txt s @ clock s @ '','' @ printFloat 1.5 2 @ '','' @ printFloat 103.75 2
              @ println_eol"
    by (simp only: processLog_log_txt a if_False)
  then have "log_txt (processLog invalid True (1.5, 103.75) s)
          = log_txt s @ ''12/10/16,17:30:00+32,1.50,103.75'' @ [CHR 0x0D, CHR 0x0A]"
    by (simp only: printFloat_samples assms(1) println_eol_def) simp
  moreover have "last (calls (processLog invalid True (invalid, flon) s)) = File_close"
    by (simp add: processLog_def Let_def)
  ultimately show ?thesis
    by (simp add: processLog_log_txt println_eol_def)
qed

text \<open>C6 (as amended) with the invalid-angle constant 1000.0 of TinyGPS.\<close>

theorem processLog_appends_line_witness:
  "log_txt (processLog 1000 True (1.5, 103.75) (init_state\<lparr>clock := ''12/10/16,17:30:00+32''\<rparr>))
     = ''12/10/16,17:30:00+32,1.50,103.75'' @ [CHR 0x0D, CHR 0x0A]
   \<and> log_txt (processLog 1000 True (1000, 103.75) (init_state\<lparr>clock := ''12/10/16,17:30:00+32''\<rparr>))
     = ''12/10/16,17:30:00+32,0.00,103.75'' @ [CHR 0x0D, CHR 0x0A]"
proof -
  let ?s = "init_state\<lparr>clock := ''12/10/16,17:30:00+32''\<rparr>"
  have a: "clock ?s = ''12/10/16,17:30:00+32''" by simp
  have b: "(1000::rat) \<noteq> 1.5" "(1000::rat) \<noteq> 103.75" by simp_all
  have c: "log_txt ?s = []" by (simp add: init_state_def)
  from processLog_appends_line [OF a b, where flon = "103.75" and flat = "1.5"] show ?thesis
    by (simp only: c a printFloat_samples) simp
qed

text \<open>
  C6 as stated fails: the record written is not the claimed text ended by a bare line
  feed; it ends with carriage return and line feed.
\<close>

theorem processLog_line_ends_with_cr_lf:
  "log_txt (processLog 1000 True (1.5, 103.75) (init_state\<lparr>clock := ''12/10/16,17:30:00+32''\<rparr>))
     = ''12/10/16,17:30:00+32,1.50,103.75'' @ [CHR 0x0D, CHR 0x0A]
   \<and> log_txt (processLog 1000 True (1.5, 103.75) (init_state\<lparr>clock := ''12/10/16,17:30:00+32''\<rparr>))
     \<noteq> ''12/10/16,17:30:00+32,1.50,103.75'' @ [CHR 0x0A]"
proof -
  have a: "\<not> (1.5::rat) = 1000" "\<not> (103.75::rat) = 1000" by simp_all
  have "log_txt (processLog 1000 True (1.5, 103.75) (init_state\<lparr>clock := ''12/10/16,17:30:00+32''\<rparr>))
     = ''12/10/16,17:30:00+32,1.50,103.75'' @ [CHR 0x0D, CHR 0x0A]"
    by (simp only: processLog_log_txt a if_False printFloat_samples println_eol_def)
       (simp add: init_state_def)
  then show ?thesis by simp
qed

text \<open>
  C7 fails on the code. A deadline computed at \<open>millis() = 4294920000\<close> wraps to 12704,
  so the next pass fires at once instead of waiting 60000 ms. A deadline computed at
  \<open>millis() = 4294907295\<close> is the largest 32-bit value and no reading of \<open>millis()\<close> is
  ever greater: no later pass fires. The first four statements show this for the
  deadline computed by \<open>setup\<close>, the last four for the deadline computed when a cycle
  re-arms in \<open>loop\<close>, with the following pass 2001 ms later.
\<close>

theorem scheduler_comparison_not_wrap_safe:
  "scheduler (armed_at 4294920000) = 12704
   \<and> loop invalid (quiet_cycle 4294920001) (armed_at 4294920000)
       = Inr ((armed_at 4294920000)\<lparr>scheduler := 12705,
                calls := calls (armed_at 4294920000) @ [SS_begin, SS_end]\<rparr>)
   \<and> scheduler (armed_at 4294907295) = 4294967295
   \<and> loop invalid env (armed_at 4294907295) = Inr (armed_at 4294907295)
   \<and> loop invalid (quiet_cycle 4294920000) (init_state\<lparr>scheduler := 4294919999\<rparr>)
       = Inr (init_state\<lparr>scheduler := 12704, calls := [SS_begin, SS_end]\<rparr>)
   \<and> loop invalid (quiet_cycle 4294922001)
         (init_state\<lparr>scheduler := 12704, calls := [SS_begin, SS_end]\<rparr>)
       = Inr (init_state\<lparr>scheduler := 14705,
                calls := [SS_begin, SS_end, SS_begin, SS_end]\<rparr>)
   \<and> loop invalid (quiet_cycle 4294907295) (init_state\<lparr>scheduler := 4294907294\<rparr>)
       = Inr (init_state\<lparr>scheduler := 4294967295, calls := [SS_begin, SS_end]\<rparr>)
   \<and> loop invalid env (init_state\<lparr>scheduler := 4294967295, calls := [SS_begin, SS_end]\<rparr>)
       = Inr (init_state\<lparr>scheduler := 4294967295, calls := [SS_begin, SS_end]\<rparr>)"
proof -
  have a: "scheduler (armed_at 4294920000) = 12704"
    by (simp add: armed_at_scheduler LOG_INTERVAL_def)
  then have "scheduler (armed_at 4294920000) < 4294920001" by simp
  from quiet_cycle_fires [OF this armed_at_newGpsData, of invalid]
  have b: "loop invalid (quiet_cycle 4294920001) (armed_at 4294920000)
       = Inr ((armed_at 4294920000)\<lparr>scheduler := 12705,
                calls := calls (armed_at 4294920000) @ [SS_begin, SS_end]\<rparr>)"
    by (simp add: LOG_INTERVAL_def)
  have c: "scheduler (armed_at 4294907295) = - 1"
    by (simp add: armed_at_scheduler LOG_INTERVAL_def)
  then have "\<not> scheduler (armed_at 4294907295) < now_test env"
    by (simp add: not_less)
  then have d: "loop invalid env (armed_at 4294907295) = Inr (armed_at 4294907295)"
    by (rule loop_not_due)
  from c have c': "scheduler (armed_at 4294907295) = 4294967295" by simp
  have e: "loop invalid (quiet_cycle 4294920000) (init_state\<lparr>scheduler := 4294919999\<rparr>)
       = Inr (init_state\<lparr>scheduler := 12704, calls := [SS_begin, SS_end]\<rparr>)"
    using quiet_cycle_fires [of "init_state\<lparr>scheduler := 4294919999\<rparr>" 4294920000 invalid]
    by (simp add: init_state_def LOG_INTERVAL_def)
  have f: "loop invalid (quiet_cycle 4294922001)
         (init_state\<lparr>scheduler := 12704, calls := [SS_begin, SS_end]\<rparr>)
       = Inr (init_state\<lparr>scheduler := 14705,
                calls := [SS_begin, SS_end, SS_begin, SS_end]\<rparr>)"
    using quiet_cycle_fires
            [of "init_state\<lparr>scheduler := 12704, calls := [SS_begin, SS_end]\<rparr>"
                4294922001 invalid]
    by (simp add: init_state_def LOG_INTERVAL_def)
  have g: "loop invalid (quiet_cycle 4294907295) (init_state\<lparr>scheduler := 4294907294\<rparr>)
       = Inr (init_state\<lparr>scheduler := 4294967295, calls := [SS_begin, SS_end]\<rparr>)"
    using quiet_cycle_fires [of "init_state\<lparr>scheduler := 4294907294\<rparr>" 4294907295 invalid]
    by (simp add: init_state_def LOG_INTERVAL_def)
  have "scheduler (init_state\<lparr>scheduler := 4294967295, calls := [SS_begin, SS_end]\<rparr>) = - 1"
    by simp
  then have "\<not> scheduler (init_state\<lparr>scheduler := 4294967295, calls := [SS_begin, SS_end]\<rparr>)
               < now_test env"
    by (simp only: not_less word_n1_ge)
  then have h: "loop invalid env (init_state\<lparr>scheduler := 4294967295, calls := [SS_begin, SS_end]\<rparr>)
       = Inr (init_state\<lparr>scheduler := 4294967295, calls := [SS_begin, SS_end]\<rparr>)"
    by (rule loop_not_due)
  from a b c' d e f g h show ?thesis by (intro conjI)
qed

text \<open>
  C8 (as amended). When a pass fires (and the run returns: the GPS loop reaches its
  time-out and the coordinate texts fit), the new deadline is the reading of \<open>millis()\<close>
  taken in the assignment plus \<open>LOG_INTERVAL\<close>, modulo \<open>2^32\<close>; the old deadline plays
  no part.
\<close>

theorem loop_rearms_from_current_reading:
  assumes "scheduler s < now_test env"
      and "\<exists>p\<in>set (gps_polls env). 2000 \<le> clk p - gps_start env"
      and "coordinates_fit (position env)"
  shows "\<exists>s'. loop invalid env s = Inr s' \<and> scheduler s' = now_arm env + LOG_INTERVAL"
proof -
  from loop_returns [OF assms(2,3)] obtain s' where r: "loop invalid env s = Inr s'"
    by blast
  from loop_fired [OF assms(1) r] r show ?thesis by simp
qed

text \<open>C8 (as amended) on a pass at 150 ms with the deadline 100.\<close>

theorem loop_rearms_from_current_reading_witness:
  "\<exists>s'. loop 1000 (quiet_cycle 150) (init_state\<lparr>scheduler := 100\<rparr>) = Inr s'
        \<and> scheduler s' = 60150"
proof -
  have a: "scheduler (init_state\<lparr>scheduler := 100\<rparr>) < now_test (quiet_cycle 150)"
    by (simp add: quiet_cycle_def)
  have b: "\<exists>p\<in>set (gps_polls (quiet_cycle 150)). 2000 \<le> clk p - gps_start (quiet_cycle 150)"
    by (simp add: quiet_cycle_def)
  have c: "coordinates_fit (position (quiet_cycle 150))"
    unfolding quiet_cycle_def by (simp only: cycle_env.select_convs coordinates_fit_sample)
  from loop_rearms_from_current_reading [OF a b c, of 1000] show ?thesis
    by (simp add: quiet_cycle_def LOG_INTERVAL_def)
qed

text \<open>
  C8 as stated fails: with the deadline 100 and both readings 150 the new deadline is
  60150, not \<open>100 + 60000\<close>.
\<close>

theorem loop_new_deadline_not_old_plus_interval:
  "loop 1000 (quiet_cycle 150) (init_state\<lparr>scheduler := 100\<rparr>)
     = Inr (init_state\<lparr>scheduler := 60150, calls := [SS_begin, SS_end]\<rparr>)
   \<and> (60150 :: u32) \<noteq> 100 + LOG_INTERVAL"
proof -
  have "scheduler (init_state\<lparr>scheduler := 100\<rparr>) < 150"
       "\<not> newGpsData (init_state\<lparr>scheduler := 100\<rparr>)"
    by (simp_all add: init_state_def)
  from quiet_cycle_fires [OF this, of 1000] show ?thesis
    by (simp add: LOG_INTERVAL_def init_state_def)
qed

text \<open>
  C9 (as amended). If some loop test reads at least 2000 ms since \<open>start\<close> (difference
  of unsigned 32-bit values), the loop of \<open>processGps\<close> leaves at the first such test
  and at no earlier one: all tests before it read less than 2000 ms, and every byte
  of their bursts has been fed. The time elapsed on leaving is at least the time-out,
  not at most.
\<close>

theorem gps_for_leaves_at_first_timeout:
  assumes "\<exists>p\<in>set polls. 2000 \<le> clk p - start"
  shows "\<exists>pre p post. polls = pre @ p # post
           \<and> (\<forall>q\<in>set pre. clk q - start < 2000)
           \<and> 2000 \<le> clk p - start
           \<and> gps_for start polls s = Inr (clk p, gps_while (concat (map burst pre)) s)"
proof -
  let ?pre = "takeWhile (in_budget start) polls"
  from assms have "dropWhile (in_budget start) polls \<noteq> []"
    using dropWhile_budget_Nil [of start polls] by blast
  then obtain p post where d: "dropWhile (in_budget start) polls = p # post"
    by (cases "dropWhile (in_budget start) polls") auto
  have "polls = ?pre @ dropWhile (in_budget start) polls" by simp
  then have 1: "polls = ?pre @ p # post" by (simp only: d)
  have 2: "\<forall>q\<in>set ?pre. clk q - start < 2000"
    using set_takeWhileD [of _ "in_budget start" polls] by (auto simp: in_budget_def)
  from hd_dropWhile [of "in_budget start" polls] d have 3: "2000 \<le> clk p - start"
    by (simp add: in_budget_def not_less)
  have 4: "gps_for start polls s = Inr (clk p, gps_while (concat (map burst ?pre)) s)"
    by (simp only: gps_for_closed d list.case fed_bytes_def)
  from 1 2 3 4 show ?thesis by blast
qed

text \<open>C9 (as amended) on the readings 1999 ms and 2001 ms.\<close>

theorem gps_for_leaves_at_first_timeout_witness:
  "\<exists>pre p post. overshoot_polls = pre @ p # post
           \<and> (\<forall>q\<in>set pre. clk q - 0 < 2000)
           \<and> 2000 \<le> clk p - 0
           \<and> gps_for 0 overshoot_polls init_state
               = Inr (clk p, gps_while (concat (map burst pre)) init_state)"
proof -
  have "\<exists>p\<in>set overshoot_polls. 2000 \<le> clk p - 0"
    by (simp add: overshoot_polls_def)
  from gps_for_leaves_at_first_timeout [OF this] show ?thesis .
qed

text \<open>
  C9 as stated fails: the test at 1999 ms passes, a byte is handled, and the next test
  reads 2001 ms; the loop leaves after more than 2000 ms.
\<close>

theorem gps_for_overshoots_timeout:
  "gps_for 0 overshoot_polls init_state
     = Inr (2001, init_state\<lparr>calls := [GPS_encode CHR ''$'']\<rparr>)
   \<and> (2000 :: u32) < 2001 - 0"
  by (simp add: overshoot_polls_def emit_def init_state_def)



end
